theory Spec2Isabelle
  imports Complex_Main "HOL-Library.AList"
begin

section \<open>JSON values and JavaScript objects\<close>

text \<open>
  The stores hold plain JavaScript objects built from JSON data (\<open>Map<string, any>\<close>).
  A number is a rational here: every number a JSON body can carry is one, and the code
  only tests numbers for presence, type and integrality (the rounding of a JSON number
  to a double is left out).  An object is an association
  list in property order; a well-formed object has pairwise distinct keys, and a read
  of a property that is not there gives \<open>undefined\<close>, which is \<open>None\<close>.
\<close>

datatype jval =
    JNull
  | JBool bool
  | JNum rat
  | JStr string
  | JArr "jval list"
  | JObj "(string \<times> jval) list"

type_synonym jobj = "(string \<times> jval) list"

text \<open>
  Object spread: \<open>{...obj, ...src}\<close> copies the properties of \<open>src\<close> one by one onto
  \<open>obj\<close>; a key that is already there keeps its place and takes the new value, a new key
  goes to the end.  A spread of one object alone, \<open>{...obj}\<close>, is a copy of it: the same
  value.
\<close>

definition spread :: "jobj \<Rightarrow> jobj \<Rightarrow> jobj" where
  "spread obj src = fold (\<lambda>(k, v). AList.update k v) src obj"

text \<open>Property read \<open>obj.k\<close>.\<close>

definition get_prop :: "jobj \<Rightarrow> string \<Rightarrow> jval option" where
  "get_prop obj k = map_of obj k"

definition keys :: "jobj \<Rightarrow> string list" where
  "keys obj = map fst obj"

section \<open>The in-memory storage layer (class TestMemStorage)\<close>

text \<open>
  One \<open>Map\<close> per entity kind and the id counter.  A JavaScript \<open>Map\<close> keeps insertion
  order: \<open>set\<close> on a new key appends, \<open>set\<close> on a present key replaces the value in
  place, \<open>delete\<close> removes the entry and tells whether there was one.
\<close>

type_synonym table = "(string \<times> jobj) list"

record store =
  shops :: table
  drivers :: table
  routes :: table
  targets :: table
  idCounter :: nat

definition new_store :: store where
  "new_store = \<lparr>shops = [], drivers = [], routes = [], targets = [], idCounter = 0\<rparr>"

text \<open>
  \<open>++this.idCounter\<close> on a JavaScript number: the counter is a double, so the increment
  is exact below \<open>2^53\<close> and has no effect from there on (\<open>2^53 + 1\<close> rounds back to
  \<open>2^53\<close>).
\<close>

definition js_incr :: "nat \<Rightarrow> nat" where
  "js_incr n = (if n < 2 ^ 53 then n + 1 else n)"

text \<open>The template literal prints the counter in decimal.\<close>

definition digit :: "nat \<Rightarrow> char" where
  "digit d = ''0123456789'' ! d"

fun string_of_nat :: "nat \<Rightarrow> string" where
  "string_of_nat n =
     (if n < 10 then [digit n] else string_of_nat (n div 10) @ [digit (n mod 10)])"

declare string_of_nat.simps [simp del]

definition genId :: "store \<Rightarrow> string \<times> store" where
  "genId st =
     (let c = js_incr (idCounter st)
      in (''test-id-'' @ string_of_nat c, st\<lparr>idCounter := c\<rparr>))"

datatype kind = Shop | Driver | Route | Target

text \<open>
  The class writes the same five methods once per kind, on the kind's own map.  The
  model writes them once, with the kind as a parameter selecting the map; \<open>createShop\<close>
  is \<open>create Shop\<close>, \<open>updateDriver\<close> is \<open>update Driver\<close>, and so on.
\<close>

fun table_of :: "kind \<Rightarrow> store \<Rightarrow> table" where
  "table_of Shop st = shops st"
| "table_of Driver st = drivers st"
| "table_of Route st = routes st"
| "table_of Target st = targets st"

fun set_table :: "kind \<Rightarrow> table \<Rightarrow> store \<Rightarrow> store" where
  "set_table Shop t st = st\<lparr>shops := t\<rparr>"
| "set_table Driver t st = st\<lparr>drivers := t\<rparr>"
| "set_table Route t st = st\<lparr>routes := t\<rparr>"
| "set_table Target t st = st\<lparr>targets := t\<rparr>"

definition getAll :: "kind \<Rightarrow> store \<Rightarrow> jobj list" where
  "getAll k st = map snd (table_of k st)"

definition getById :: "kind \<Rightarrow> store \<Rightarrow> string \<Rightarrow> jobj option" where
  "getById k st i = map_of (table_of k st) i"

text \<open>\<open>const id = this.genId(); const shop = { ...data, id }; this.shops.set(id, shop); return shop\<close>\<close>

definition create :: "kind \<Rightarrow> store \<Rightarrow> jobj \<Rightarrow> jobj \<times> store" where
  "create k st data =
     (let (i, st1) = genId st;
          r = AList.update ''id'' (JStr i) data
      in (r, set_table k (AList.update i r (table_of k st1)) st1))"

text \<open>
  \<open>const shop = this.shops.get(id); if (!shop) return undefined;
  const updated = { ...shop, ...updates }; this.shops.set(id, updated); return updated\<close>.
  A stored value is an object, hence truthy: \<open>!shop\<close> holds exactly when the id is unknown.
\<close>

definition update :: "kind \<Rightarrow> store \<Rightarrow> string \<Rightarrow> jobj \<Rightarrow> jobj option \<times> store" where
  "update k st i updates =
     (case map_of (table_of k st) i of
        None \<Rightarrow> (None, st)
      | Some r \<Rightarrow>
          (let updated = spread r updates
           in (Some updated, set_table k (AList.update i updated (table_of k st)) st)))"

text \<open>\<open>return this.shops.delete(id)\<close>\<close>

definition delete :: "kind \<Rightarrow> store \<Rightarrow> string \<Rightarrow> bool \<times> store" where
  "delete k st i =
     (map_of (table_of k st) i \<noteq> None, set_table k (AList.delete i (table_of k st)) st)"

definition createShop :: "store \<Rightarrow> jobj \<Rightarrow> jobj \<times> store" where
  "createShop = create Shop"

definition createDriver :: "store \<Rightarrow> jobj \<Rightarrow> jobj \<times> store" where
  "createDriver = create Driver"

definition updateShop :: "store \<Rightarrow> string \<Rightarrow> jobj \<Rightarrow> jobj option \<times> store" where
  "updateShop = update Shop"

definition deleteShop :: "store \<Rightarrow> string \<Rightarrow> bool \<times> store" where
  "deleteShop = delete Shop"

text \<open>
  A caller's run of create and delete operations on one store instance, and the ids the
  creates hand back (the \<open>id\<close> property of each returned record), in order.
\<close>

datatype op = Create kind jobj | Delete kind string

definition id_of :: "jobj \<Rightarrow> string" where
  "id_of r = (case get_prop r ''id'' of Some (JStr i) \<Rightarrow> i | _ \<Rightarrow> [])"

fun run :: "op list \<Rightarrow> store \<Rightarrow> string list \<times> store" where
  "run [] st = ([], st)"
| "run (Create k d # ops) st =
     (let (r, st1) = create k st d; (ids, st2) = run ops st1 in (id_of r # ids, st2))"
| "run (Delete k i # ops) st = run ops (snd (delete k st i))"

section \<open>The HTTP surface (createTestApp)\<close>

text \<open>
  The Express test application keeps the same state in its closure: four maps and
  \<open>idCounter\<close>, with ids printed as \<open>test-N\<close>.  A request is its method, the segments
  of its path between the slashes (\<open>/api/shops/\<close> is \<open>api\<close>, \<open>shops\<close> and an empty
  segment; fixed segments in lower case), the JSON object \<open>express.json()\<close> left in
  \<open>req.body\<close> (the empty object when the request has none) and, for the health check,
  the clock reading at arrival.  A response is its status code and its JSON body, if any.
\<close>

datatype verb = GET | POST | PATCH | PUT | DELETE

record request =
  meth :: verb
  path :: "string list"
  body :: jobj
  clock :: string

record response =
  status :: nat
  json :: "jval option"

definition reply :: "nat \<Rightarrow> jval \<Rightarrow> response" where
  "reply c v = \<lparr>status = c, json = Some v\<rparr>"

definition error_body :: "string \<Rightarrow> jval" where
  "error_body msg = JObj [(''error'', JStr msg)]"

text \<open>\<open>!v\<close> on a value read from the body (\<open>None\<close> is \<open>undefined\<close>).\<close>

fun falsy :: "jval option \<Rightarrow> bool" where
  "falsy None = True"
| "falsy (Some JNull) = True"
| "falsy (Some (JBool b)) = (\<not> b)"
| "falsy (Some (JNum x)) = (x = 0)"
| "falsy (Some (JStr s)) = (s = [])"
| "falsy (Some (JArr xs)) = False"
| "falsy (Some (JObj kvs)) = False"

text \<open>\<open>v == null\<close>: true of \<open>undefined\<close> and of \<open>null\<close> only.\<close>

definition nullish :: "jval option \<Rightarrow> bool" where
  "nullish v = (v = None \<or> v = Some JNull)"

definition app_genId :: "store \<Rightarrow> string \<times> store" where
  "app_genId st =
     (let c = js_incr (idCounter st)
      in (''test-'' @ string_of_nat c, st\<lparr>idCounter := c\<rparr>))"

definition values_json :: "table \<Rightarrow> jval" where
  "values_json t = JArr (map (\<lambda>(i, r). JObj r) t)"

subsection \<open>Shops\<close>

definition get_api_shops :: "store \<Rightarrow> response \<times> store" where
  "get_api_shops st = (reply 200 (values_json (shops st)), st)"

definition get_api_shops_id :: "store \<Rightarrow> string \<Rightarrow> response \<times> store" where
  "get_api_shops_id st i =
     (case map_of (shops st) i of
        None \<Rightarrow> (reply 404 (error_body ''Shop not found''), st)
      | Some shop \<Rightarrow> (reply 200 (JObj shop), st))"

definition post_api_shops :: "store \<Rightarrow> jobj \<Rightarrow> response \<times> store" where
  "post_api_shops st b =
     (if falsy (get_prop b ''name'') \<or> nullish (get_prop b ''latitude'')
         \<or> nullish (get_prop b ''longitude'')
      then (reply 400 (error_body ''Invalid shop data''), st)
      else
        (let (i, st1) = app_genId st;
             shop = spread [(''id'', JStr i)] b
         in (reply 201 (JObj shop), st1\<lparr>shops := AList.update i shop (shops st1)\<rparr>)))"

definition patch_api_shops_id :: "store \<Rightarrow> string \<Rightarrow> jobj \<Rightarrow> response \<times> store" where
  "patch_api_shops_id st i b =
     (case map_of (shops st) i of
        None \<Rightarrow> (reply 404 (error_body ''Shop not found''), st)
      | Some shop \<Rightarrow>
          (let updated = spread shop b
           in (reply 200 (JObj updated), st\<lparr>shops := AList.update i updated (shops st)\<rparr>)))"

definition delete_api_shops_id :: "store \<Rightarrow> string \<Rightarrow> response \<times> store" where
  "delete_api_shops_id st i =
     (if map_of (shops st) i = None
      then (reply 404 (error_body ''Shop not found''), st)
      else (\<lparr>status = 204, json = None\<rparr>, st\<lparr>shops := AList.delete i (shops st)\<rparr>))"

subsection \<open>Drivers\<close>

definition get_api_drivers :: "store \<Rightarrow> response \<times> store" where
  "get_api_drivers st = (reply 200 (values_json (drivers st)), st)"

definition post_api_drivers :: "store \<Rightarrow> jobj \<Rightarrow> response \<times> store" where
  "post_api_drivers st b =
     (if falsy (get_prop b ''name'') \<or> falsy (get_prop b ''phone'')
         \<or> falsy (get_prop b ''vehicleType'')
      then (reply 400 (error_body ''Invalid driver data''), st)
      else
        (let (i, st1) = app_genId st;
             driver = spread [(''id'', JStr i), (''status'', JStr ''available'')] b
         in (reply 201 (JObj driver), st1\<lparr>drivers := AList.update i driver (drivers st1)\<rparr>)))"

definition delete_api_drivers_id :: "store \<Rightarrow> string \<Rightarrow> response \<times> store" where
  "delete_api_drivers_id st i =
     (if map_of (drivers st) i = None
      then (reply 404 (error_body ''Driver not found''), st)
      else (\<lparr>status = 204, json = None\<rparr>, st\<lparr>drivers := AList.delete i (drivers st)\<rparr>))"

subsection \<open>Routes\<close>

definition get_api_routes :: "store \<Rightarrow> response \<times> store" where
  "get_api_routes st = (reply 200 (values_json (routes st)), st)"

definition post_api_routes :: "store \<Rightarrow> jobj \<Rightarrow> response \<times> store" where
  "post_api_routes st b =
     (if falsy (get_prop b ''name'') \<or> falsy (get_prop b ''date'')
      then (reply 400 (error_body ''Invalid route data''), st)
      else
        (let (i, st1) = app_genId st;
             route = spread [(''id'', JStr i), (''status'', JStr ''planned''),
                             (''shopIds'', JArr [])] b
         in (reply 201 (JObj route), st1\<lparr>routes := AList.update i route (routes st1)\<rparr>)))"

subsection \<open>Targets\<close>

definition get_api_targets :: "store \<Rightarrow> response \<times> store" where
  "get_api_targets st = (reply 200 (values_json (targets st)), st)"

definition post_api_targets :: "store \<Rightarrow> jobj \<Rightarrow> response \<times> store" where
  "post_api_targets st b =
     (if falsy (get_prop b ''driverId'') \<or> falsy (get_prop b ''period'')
         \<or> nullish (get_prop b ''targetShops'') \<or> nullish (get_prop b ''targetDeliveries'')
         \<or> falsy (get_prop b ''startDate'') \<or> falsy (get_prop b ''endDate'')
      then (reply 400 (error_body ''Invalid target data''), st)
      else
        (let (i, st1) = app_genId st;
             target = spread [(''id'', JStr i), (''completedShops'', JNum 0),
                              (''completedDeliveries'', JNum 0)] b
         in (reply 201 (JObj target), st1\<lparr>targets := AList.update i target (targets st1)\<rparr>)))"

subsection \<open>Health check and routing\<close>

definition get_api_health :: "store \<Rightarrow> string \<Rightarrow> response \<times> store" where
  "get_api_health st now =
     (reply 200 (JObj [(''status'', JStr ''ok''), (''timestamp'', JStr now)]), st)"

text \<open>
  A request that no registered route matches falls through to Express's final handler:
  status 404, with a body that is not JSON.
\<close>

definition no_route :: "store \<Rightarrow> response \<times> store" where
  "no_route st = (\<lparr>status = 404, json = None\<rparr>, st)"

text \<open>
  Express matches a route against the path with one trailing slash made optional (its
  default, non-strict routing): \<open>/api/shops/\<close> is served as \<open>/api/shops\<close>, and
  \<open>/api/shops/test-1/\<close> as \<open>/api/shops/test-1\<close>.  In the list of segments a trailing
  slash is a last segment that is empty.
\<close>

definition route_path :: "string list \<Rightarrow> string list" where
  "route_path p = (if p \<noteq> [] \<and> last p = [] then butlast p else p)"

text \<open>
  The routes in registration order; \<open>:id\<close> matches one non-empty segment.
\<close>

definition handle :: "store \<Rightarrow> request \<Rightarrow> response \<times> store" where
  "handle st rq =
     (case route_path (path rq) of
        [a, c] \<Rightarrow>
          if a = ''api'' \<and> c = ''shops'' \<and> meth rq = GET then get_api_shops st
          else if a = ''api'' \<and> c = ''shops'' \<and> meth rq = POST
            then post_api_shops st (body rq)
          else if a = ''api'' \<and> c = ''drivers'' \<and> meth rq = GET then get_api_drivers st
          else if a = ''api'' \<and> c = ''drivers'' \<and> meth rq = POST
            then post_api_drivers st (body rq)
          else if a = ''api'' \<and> c = ''routes'' \<and> meth rq = GET then get_api_routes st
          else if a = ''api'' \<and> c = ''routes'' \<and> meth rq = POST
            then post_api_routes st (body rq)
          else if a = ''api'' \<and> c = ''targets'' \<and> meth rq = GET then get_api_targets st
          else if a = ''api'' \<and> c = ''targets'' \<and> meth rq = POST
            then post_api_targets st (body rq)
          else if a = ''api'' \<and> c = ''health'' \<and> meth rq = GET
            then get_api_health st (clock rq)
          else no_route st
      | [a, c, i] \<Rightarrow>
          if i = [] then no_route st
          else if a = ''api'' \<and> c = ''shops'' \<and> meth rq = GET then get_api_shops_id st i
          else if a = ''api'' \<and> c = ''shops'' \<and> meth rq = PATCH
            then patch_api_shops_id st i (body rq)
          else if a = ''api'' \<and> c = ''shops'' \<and> meth rq = DELETE
            then delete_api_shops_id st i
          else if a = ''api'' \<and> c = ''drivers'' \<and> meth rq = DELETE
            then delete_api_drivers_id st i
          else no_route st
      | _ \<Rightarrow> no_route st)"

section \<open>The validation layer (insert schemas)\<close>

text \<open>
  Modelled from the spec: what the schema combinators do.  The four insert schemas are
  in the sources; the combinators they are built from (\<open>z.string\<close>, \<open>min\<close>, \<open>z.number\<close>,
  \<open>int\<close>, \<open>z.array\<close>, \<open>optional\<close>, \<open>nullable\<close>, \<open>default\<close>, \<open>z.object\<close>, \<open>safeParse\<close>) belong
  to the zod library, which is not.  They are given the meaning the specification's
  validation rules state: a required field must be present and of its type; a numeric
  field takes numbers only, an integer field whole numbers only; an optional field that
  is not given is dropped, one with a default is filled in; unknown fields are dropped;
  a failure lists an issue for every field that violates its rule.
\<close>

datatype zschema =
    ZString nat
  | ZNumber bool
  | ZArray zschema
  | ZOptional zschema
  | ZNullable zschema
  | ZDefault jval zschema

text \<open>
  \<open>ZString n\<close> is \<open>z.string()\<close> with minimum length \<open>n\<close> (\<open>z.string().min(1)\<close> is
  \<open>ZString 1\<close>), \<open>ZNumber True\<close> is \<open>z.number().int()\<close>.
\<close>

datatype zseg = Key string | Index nat

datatype zcode = InvalidType | TooSmall

type_synonym zissue = "zseg list \<times> zcode"

definition is_integer :: "rat \<Rightarrow> bool" where
  "is_integer x = (of_int \<lfloor>x\<rfloor> = x)"

definition under :: "zseg \<Rightarrow> zissue list \<Rightarrow> zissue list" where
  "under seg e = map (\<lambda>(p, c). (seg # p, c)) e"

definition issues_of :: "(zissue list + 'a) list \<Rightarrow> zissue list" where
  "issues_of rs = concat (map (\<lambda>r. case r of Inl e \<Rightarrow> e | Inr x \<Rightarrow> []) rs)"

fun zparse :: "zschema \<Rightarrow> jval option \<Rightarrow> zissue list + jval option" where
  "zparse (ZString n) v =
     (case v of
        Some (JStr s) \<Rightarrow> if n \<le> length s then Inr v else Inl [([], TooSmall)]
      | _ \<Rightarrow> Inl [([], InvalidType)])"
| "zparse (ZNumber whole) v =
     (case v of
        Some (JNum x) \<Rightarrow> if whole \<and> \<not> is_integer x then Inl [([], InvalidType)] else Inr v
      | _ \<Rightarrow> Inl [([], InvalidType)])"
| "zparse (ZArray s) v =
     (case v of
        Some (JArr xs) \<Rightarrow>
          (let rs = map (\<lambda>x. zparse s (Some x)) xs;
               e = issues_of (map (\<lambda>(n, r). case r of Inl e \<Rightarrow> Inl (under (Index n) e)
                                                 | Inr y \<Rightarrow> Inr y)
                                   (zip [0..<length rs] rs))
           in if e = [] then Inr (Some (JArr (concat (map (\<lambda>r. case r of Inr (Some y) \<Rightarrow> [y]
                                                                      | _ \<Rightarrow> []) rs))))
              else Inl e)
      | _ \<Rightarrow> Inl [([], InvalidType)])"
| "zparse (ZOptional s) v = (if v = None then Inr None else zparse s v)"
| "zparse (ZNullable s) v = (if v = Some JNull then Inr (Some JNull) else zparse s v)"
| "zparse (ZDefault d s) v = zparse s (if v = None then Some d else v)"

type_synonym zshape = "(string \<times> zschema) list"

definition parse_field :: "jobj \<Rightarrow> string \<times> zschema \<Rightarrow> zissue list + jobj" where
  "parse_field input f =
     (case zparse (snd f) (get_prop input (fst f)) of
        Inl e \<Rightarrow> Inl (under (Key (fst f)) e)
      | Inr None \<Rightarrow> Inr []
      | Inr (Some v) \<Rightarrow> Inr [(fst f, v)])"

definition safeParse :: "zshape \<Rightarrow> jval \<Rightarrow> zissue list + jobj" where
  "safeParse shape raw =
     (case raw of
        JObj input \<Rightarrow>
          (let rs = map (parse_field input) shape
           in if issues_of rs = []
              then Inr (concat (map (\<lambda>r. case r of Inr kv \<Rightarrow> kv | Inl e \<Rightarrow> []) rs))
              else Inl (issues_of rs))
      | _ \<Rightarrow> Inl [([], InvalidType)])"

text \<open>A field of the shape violates its rule on this input.\<close>

definition violated :: "jobj \<Rightarrow> string \<times> zschema \<Rightarrow> bool" where
  "violated input f = isl (zparse (snd f) (get_prop input (fst f)))"

text \<open>The fields an issue list names: the first segment of each issue's path.\<close>

definition named_fields :: "zissue list \<Rightarrow> string set" where
  "named_fields e = {k. \<exists>p c. (Key k # p, c) \<in> set e}"

definition insertShopSchema :: zshape where
  "insertShopSchema =
     [(''name'', ZString 1),
      (''ownerName'', ZNullable (ZOptional (ZString 0))),
      (''phone'', ZNullable (ZOptional (ZString 0))),
      (''address'', ZNullable (ZOptional (ZString 0))),
      (''latitude'', ZNumber False),
      (''longitude'', ZNumber False),
      (''category'', ZDefault (JStr ''retail'') (ZString 0)),
      (''status'', ZDefault (JStr ''active'') (ZString 0)),
      (''addedBy'', ZNullable (ZOptional (ZString 0))),
      (''notes'', ZNullable (ZOptional (ZString 0)))]"

definition insertDriverSchema :: zshape where
  "insertDriverSchema =
     [(''name'', ZString 1),
      (''phone'', ZString 1),
      (''vehicleType'', ZString 1),
      (''vehiclePlate'', ZNullable (ZOptional (ZString 0))),
      (''status'', ZDefault (JStr ''available'') (ZString 0)),
      (''currentLatitude'', ZNullable (ZOptional (ZNumber False))),
      (''currentLongitude'', ZNullable (ZOptional (ZNumber False)))]"

definition insertRouteSchema :: zshape where
  "insertRouteSchema =
     [(''name'', ZString 1),
      (''driverId'', ZNullable (ZOptional (ZString 0))),
      (''shopIds'', ZDefault (JArr []) (ZArray (ZString 0))),
      (''status'', ZDefault (JStr ''planned'') (ZString 0)),
      (''estimatedDistance'', ZNullable (ZOptional (ZNumber False))),
      (''estimatedTime'', ZNullable (ZOptional (ZNumber False))),
      (''date'', ZString 1)]"

definition insertTargetSchema :: zshape where
  "insertTargetSchema =
     [(''driverId'', ZString 1),
      (''period'', ZString 1),
      (''targetShops'', ZNumber True),
      (''targetDeliveries'', ZNumber True),
      (''completedShops'', ZDefault (JNum 0) (ZNumber True)),
      (''completedDeliveries'', ZDefault (JNum 0) (ZNumber True)),
      (''startDate'', ZString 1),
      (''endDate'', ZString 1)]"

section \<open>Auxiliary facts\<close>

lemma table_of_set_table [simp]: "table_of k (set_table k t st) = t"
  by (cases k) simp_all

lemma set_table_same [simp]: "set_table k (table_of k st) st = st"
  by (cases k) simp_all

lemma is_integer_Ints: "is_integer x \<longleftrightarrow> x \<in> \<int>"
  unfolding is_integer_def by (metis Ints_of_int of_int_floor)

lemma spread_Cons: "spread a ((k, v) # b) = spread (AList.update k v a) b"
  by (simp add: spread_def)

lemma spread_Nil [simp]: "spread a [] = a"
  by (simp add: spread_def)

lemma get_prop_update:
  "get_prop (AList.update k v a) f = (if f = k then Some v else get_prop a f)"
  by (simp add: get_prop_def update_conv')

lemma keys_update: "set (keys (AList.update k v a)) = insert k (set (keys a))"
  using dom_update [of k v a] by (simp add: keys_def)

lemma get_prop_spread_other:
  "f \<notin> set (keys b) \<Longrightarrow> get_prop (spread a b) f = get_prop a f"
proof (induction b arbitrary: a)
  case Nil
  then show ?case by simp
next
  case (Cons x b)
  obtain k v where x: "x = (k, v)" by (cases x)
  from Cons.prems have "f \<noteq> k" and "f \<notin> set (keys b)"
    by (simp_all add: x keys_def)
  then show ?case
    using Cons.IH [of "AList.update k v a"] by (simp add: x spread_Cons get_prop_update)
qed

lemma get_prop_spread_patch:
  "distinct (keys b) \<Longrightarrow> (f, v) \<in> set b \<Longrightarrow> get_prop (spread a b) f = Some v"
proof (induction b arbitrary: a)
  case Nil
  then show ?case by simp
next
  case (Cons x b)
  obtain k w where x: "x = (k, w)" by (cases x)
  from Cons.prems(1) have d: "distinct (keys b)" and k: "k \<notin> set (keys b)"
    by (simp_all add: x keys_def)
  show ?case
  proof (cases "(f, v) = (k, w)")
    case True
    with k show ?thesis
      by (simp add: x spread_Cons get_prop_spread_other get_prop_update)
  next
    case False
    with Cons.prems(2) have "(f, v) \<in> set b" by (auto simp: x)
    with d show ?thesis
      using Cons.IH [of "AList.update k w a"] by (simp add: x spread_Cons)
  qed
qed

lemma keys_spread: "set (keys (spread a b)) = set (keys a) \<union> set (keys b)"
proof (induction b arbitrary: a)
  case Nil
  then show ?case by (simp add: keys_def)
next
  case (Cons x b)
  obtain k v where x: "x = (k, v)" by (cases x)
  have "set (keys (spread a (x # b))) = set (keys (spread (AList.update k v a) b))"
    by (simp add: x spread_Cons)
  also have "\<dots> = set (keys (AList.update k v a)) \<union> set (keys b)"
    by (rule Cons.IH)
  also have "\<dots> = insert k (set (keys a)) \<union> set (keys b)"
    by (simp only: keys_update)
  also have "\<dots> = set (keys a) \<union> set (keys (x # b))"
    by (simp add: x keys_def)
  finally show ?case .
qed

lemma set_table_twice [simp]: "set_table k t (set_table k t' st) = set_table k t st"
  by (cases k) simp_all

lemma update_found:
  "getById k st i = Some r \<Longrightarrow>
   update k st i patch =
     (Some (spread r patch), set_table k (AList.update i (spread r patch) (table_of k st)) st)"
  by (simp add: update_def getById_def Let_def)

lemma test_id_1: "string_of_nat (Suc 0) = ''1''"
  by (simp add: string_of_nat.simps digit_def)


section \<open>The storage layer\<close>

text \<open>
  C2.  For every entity kind, store state and patch, \<open>update\<close> on an id that is not in
  the store returns absent (\<open>undefined\<close>) and hands back the very same store: nothing is
  added, removed or changed.
\<close>

theorem update_unknown_id_no_mutation:
  "getById k st i = None \<Longrightarrow> update k st i patch = (None, st)"
  by (simp add: update_def getById_def)

theorem update_unknown_id_no_mutation_witness:
  "getById Shop
     \<lparr>shops = [(''test-id-1'', [(''name'', JStr ''A''), (''id'', JStr ''test-id-1'')])],
      drivers = [], routes = [], targets = [], idCounter = 1\<rparr> ''fake-id'' = None
   \<and> update Shop
     \<lparr>shops = [(''test-id-1'', [(''name'', JStr ''A''), (''id'', JStr ''test-id-1'')])],
      drivers = [], routes = [], targets = [], idCounter = 1\<rparr> ''fake-id''
     [(''name'', JStr ''X'')]
     = (None,
        \<lparr>shops = [(''test-id-1'', [(''name'', JStr ''A''), (''id'', JStr ''test-id-1'')])],
         drivers = [], routes = [], targets = [], idCounter = 1\<rparr>)"
proof -
  let ?st = "\<lparr>shops = [(''test-id-1'', [(''name'', JStr ''A''), (''id'', JStr ''test-id-1'')])],
              drivers = [], routes = [], targets = [], idCounter = 1\<rparr>"
  have h: "getById Shop ?st ''fake-id'' = None" by (simp add: getById_def)
  from h update_unknown_id_no_mutation [OF h, of "[(''name'', JStr ''X'')]"]
  show ?thesis by (intro conjI)
qed

text \<open>
  C3.  For a stored record and a patch (a well-formed object) whose keys are among the
  record's fields, \<open>update\<close> returns the shallow merge of the patch over the record:
  every field the patch does not name keeps its value, every field it names takes the
  patch's value, no field is added, and a following \<open>getById\<close> returns that same record
  (and, for every other id, what it returned before).
\<close>

theorem update_shallow_merge:
  assumes stored: "getById k st i = Some r"
    and sub: "set (keys patch) \<subseteq> set (keys r)"
    and wf: "distinct (keys patch)"
    and run: "update k st i patch = (res, st')"
  shows "\<exists>r'. res = Some r'
           \<and> (\<forall>f. f \<notin> set (keys patch) \<longrightarrow> get_prop r' f = get_prop r f)
           \<and> (\<forall>f v. (f, v) \<in> set patch \<longrightarrow> get_prop r' f = Some v)
           \<and> set (keys r') = set (keys r)
           \<and> getById k st' i = Some r'
           \<and> getById k st' = (getById k st)(i \<mapsto> r')"
proof -
  let ?r' = "spread r patch"
  from run update_found [OF stored, of patch]
  have res: "res = Some ?r'"
    and st': "st' = set_table k (AList.update i ?r' (table_of k st)) st"
    by simp_all
  have all: "getById k st' = (getById k st)(i \<mapsto> ?r')"
    by (rule ext) (simp add: st' getById_def update_conv')
  then have "getById k st' i = Some ?r'" by simp
  moreover have "set (keys ?r') = set (keys r)"
    using sub by (auto simp: keys_spread)
  ultimately show ?thesis
    using res wf all by (auto simp: get_prop_spread_other get_prop_spread_patch)
qed

theorem update_shallow_merge_witness:
  "getById Shop
     \<lparr>shops = [(''test-id-1'', [(''name'', JStr ''Old Name''), (''latitude'', JNum (-1.25)),
                                 (''id'', JStr ''test-id-1'')])],
      drivers = [], routes = [], targets = [], idCounter = 1\<rparr> ''test-id-1''
     = Some [(''name'', JStr ''Old Name''), (''latitude'', JNum (-1.25)), (''id'', JStr ''test-id-1'')]
   \<and> set (keys [(''name'', JStr ''New Name'')])
       \<subseteq> set (keys [(''name'', JStr ''Old Name''), (''latitude'', JNum (-1.25)),
                      (''id'', JStr ''test-id-1'')])
   \<and> distinct (keys [(''name'', JStr ''New Name'')])
   \<and> (\<exists>r'. fst (update Shop
         \<lparr>shops = [(''test-id-1'', [(''name'', JStr ''Old Name''), (''latitude'', JNum (-1.25)),
                                     (''id'', JStr ''test-id-1'')])],
          drivers = [], routes = [], targets = [], idCounter = 1\<rparr> ''test-id-1''
          [(''name'', JStr ''New Name'')]) = Some r'
        \<and> get_prop r' ''latitude'' = Some (JNum (-1.25))
        \<and> get_prop r' ''name'' = Some (JStr ''New Name''))"
proof -
  let ?r = "[(''name'', JStr ''Old Name''), (''latitude'', JNum (-1.25)), (''id'', JStr ''test-id-1'')]"
  let ?st = "\<lparr>shops = [(''test-id-1'', ?r)], drivers = [], routes = [], targets = [],
              idCounter = 1\<rparr>"
  let ?p = "[(''name'', JStr ''New Name'')]"
  have h1: "getById Shop ?st ''test-id-1'' = Some ?r" by (simp add: getById_def)
  have h2: "set (keys ?p) \<subseteq> set (keys ?r)" by (simp add: keys_def)
  have h3: "distinct (keys ?p)" by (simp add: keys_def)
  have h4: "update Shop ?st ''test-id-1'' ?p
             = (fst (update Shop ?st ''test-id-1'' ?p), snd (update Shop ?st ''test-id-1'' ?p))"
    by simp
  from update_shallow_merge [OF h1 h2 h3 h4]
  obtain r' where res: "fst (update Shop ?st ''test-id-1'' ?p) = Some r'"
    and keep: "\<forall>f. f \<notin> set (keys ?p) \<longrightarrow> get_prop r' f = get_prop ?r f"
    and take: "\<forall>f v. (f, v) \<in> set ?p \<longrightarrow> get_prop r' f = Some v"
    by (elim exE conjE)
  have lat: "get_prop r' ''latitude'' = Some (JNum (-1.25))"
    using keep [rule_format, of "''latitude''"] by (simp add: keys_def get_prop_def)
  have nam: "get_prop r' ''name'' = Some (JStr ''New Name'')"
    using take [rule_format, of "''name''" "JStr ''New Name''"] by simp
  have "\<exists>r'. fst (update Shop ?st ''test-id-1'' ?p) = Some r'
      \<and> get_prop r' ''latitude'' = Some (JNum (-1.25))
      \<and> get_prop r' ''name'' = Some (JStr ''New Name'')"
    using res lat nam by (intro exI [of _ r'] conjI)
  with h1 h2 h3 show ?thesis by (intro conjI)
qed

text \<open>
  C4.  For every kind and id, \<open>delete\<close> returns true exactly when a record with that id
  was stored, and afterwards that id, and no other, is gone; a second \<open>delete\<close> of the
  same id returns false and leaves the store, hence the number of stored records, as
  it was.
\<close>

theorem delete_true_iff_existed:
  "fst (delete k st i) = (getById k st i \<noteq> None)
   \<and> getById k (snd (delete k st i)) = (getById k st)(i := None)
   \<and> delete k (snd (delete k st i)) i = (False, snd (delete k st i))
   \<and> length (getAll k (snd (delete k (snd (delete k st i)) i)))
       = length (getAll k (snd (delete k st i)))"
proof -
  have gone: "getById k (snd (delete k st i)) = (getById k st)(i := None)"
    by (rule ext) (simp add: delete_def getById_def delete_conv')
  have twice: "delete k (snd (delete k st i)) i = (False, snd (delete k st i))"
    by (simp add: delete_def delete_conv' delete_idem)
  show ?thesis
    by (simp add: twice gone) (simp add: delete_def getById_def)
qed

theorem delete_true_iff_existed_witness:
  "fst (delete Shop
     \<lparr>shops = [(''test-id-1'', [(''name'', JStr ''Delete Me''), (''id'', JStr ''test-id-1'')])],
      drivers = [], routes = [], targets = [], idCounter = 1\<rparr> ''test-id-1'')
   \<and> delete Shop (snd (delete Shop
       \<lparr>shops = [(''test-id-1'', [(''name'', JStr ''Delete Me''), (''id'', JStr ''test-id-1'')])],
        drivers = [], routes = [], targets = [], idCounter = 1\<rparr> ''test-id-1'')) ''test-id-1''
     = (False, \<lparr>shops = [], drivers = [], routes = [], targets = [], idCounter = 1\<rparr>)"
proof -
  let ?st = "\<lparr>shops = [(''test-id-1'', [(''name'', JStr ''Delete Me''),
                                          (''id'', JStr ''test-id-1'')])],
              drivers = [], routes = [], targets = [], idCounter = 1\<rparr>"
  have ex: "getById Shop ?st ''test-id-1'' \<noteq> None" by (simp add: getById_def)
  have st1: "snd (delete Shop ?st ''test-id-1'')
    = \<lparr>shops = [], drivers = [], routes = [], targets = [], idCounter = 1\<rparr>"
    by (simp add: delete_def)
  from delete_true_iff_existed [of Shop ?st "''test-id-1''"] ex
  have "fst (delete Shop ?st ''test-id-1'')"
    and "delete Shop (snd (delete Shop ?st ''test-id-1'')) ''test-id-1''
          = (False, snd (delete Shop ?st ''test-id-1''))"
    by simp_all
  then show ?thesis by (simp only: st1 simp_thms)
qed

text \<open>
  C10.  At the storage layer, for every kind and whatever the caller's data holds (an
  \<open>id\<close> field of its own included), the record \<open>create\<close> returns carries the freshly
  generated id, and that record is what the store holds under the generated id, next
  to the records it held before.
\<close>

theorem create_overwrites_caller_id:
  "get_prop (fst (create k st data)) ''id'' = Some (JStr (fst (genId st)))
   \<and> getById k (snd (create k st data)) (fst (genId st)) = Some (fst (create k st data))
   \<and> getById k (snd (create k st data))
       = (getById k st)(fst (genId st) \<mapsto> fst (create k st data))"
proof -
  have tab: "table_of k (snd (genId st)) = table_of k st"
    by (cases k) (simp_all add: genId_def Let_def)
  have "getById k (snd (create k st data))
       = (getById k st)(fst (genId st) \<mapsto> fst (create k st data))"
    by (rule ext) (simp add: create_def getById_def update_conv' split_beta Let_def tab)
  then show ?thesis
    by (simp add: create_def get_prop_def update_conv' split_beta Let_def)
qed

theorem create_overwrites_caller_id_witness:
  "get_prop (fst (createShop new_store [(''name'', JStr ''A''), (''id'', JStr ''mine'')])) ''id''
     = Some (JStr ''test-id-1'')
   \<and> getById Shop (snd (createShop new_store [(''name'', JStr ''A''), (''id'', JStr ''mine'')]))
       ''test-id-1''
     = Some [(''name'', JStr ''A''), (''id'', JStr ''test-id-1'')]"
proof -
  have g: "fst (genId new_store) = ''test-id-1''"
    by (simp add: genId_def new_store_def js_incr_def test_id_1)
  have r: "fst (create Shop new_store [(''name'', JStr ''A''), (''id'', JStr ''mine'')])
            = [(''name'', JStr ''A''), (''id'', JStr ''test-id-1'')]"
    by (simp add: create_def genId_def new_store_def js_incr_def test_id_1 Let_def)
  from create_overwrites_caller_id [of Shop new_store "[(''name'', JStr ''A''), (''id'', JStr ''mine'')]"]
  show ?thesis by (simp add: g r createShop_def)
qed

lemma digit_inj: "a < 10 \<Longrightarrow> b < 10 \<Longrightarrow> digit a = digit b \<Longrightarrow> a = b"
proof -
  assume "a < 10" "b < 10" "digit a = digit b"
  moreover have "distinct ''0123456789''" by simp
  ultimately show "a = b"
    unfolding digit_def by (simp add: nth_eq_iff_index_eq)
qed

lemma string_of_nat_nonempty: "string_of_nat n \<noteq> []"
  by (subst string_of_nat.simps) simp

lemma string_of_nat_inj: "string_of_nat m = string_of_nat n \<Longrightarrow> m = n"
proof (induction m arbitrary: n rule: string_of_nat.induct)
  case (1 m)
  show ?case
  proof (cases "m < 10")
    case True
    then have m: "string_of_nat m = [digit m]" by (simp add: string_of_nat.simps)
    show ?thesis
    proof (cases "n < 10")
      case n: True
      then have "string_of_nat n = [digit n]" by (simp add: string_of_nat.simps)
      with m "1.prems" True n show ?thesis by (simp add: digit_inj)
    next
      case False
      then have "string_of_nat n = string_of_nat (n div 10) @ [digit (n mod 10)]"
        by (simp add: string_of_nat.simps)
      with m "1.prems" have "string_of_nat (n div 10) = []" by simp
      then show ?thesis by (simp add: string_of_nat_nonempty)
    qed
  next
    case False
    then have m: "string_of_nat m = string_of_nat (m div 10) @ [digit (m mod 10)]"
      by (simp add: string_of_nat.simps)
    show ?thesis
    proof (cases "n < 10")
      case True
      then have "string_of_nat n = [digit n]" by (simp add: string_of_nat.simps)
      with m "1.prems" have "string_of_nat (m div 10) = []" by simp
      then show ?thesis by (simp add: string_of_nat_nonempty)
    next
      case n: False
      then have "string_of_nat n = string_of_nat (n div 10) @ [digit (n mod 10)]"
        by (simp add: string_of_nat.simps)
      with m "1.prems" have q: "string_of_nat (m div 10) = string_of_nat (n div 10)"
        and d: "digit (m mod 10) = digit (n mod 10)" by simp_all
      from "1.IH" [OF False q] have "m div 10 = n div 10" .
      moreover from d have "m mod 10 = n mod 10" by (simp add: digit_inj)
      ultimately show ?thesis by (metis div_mult_mod_eq)
    qed
  qed
qed

lemma idCounter_set_table [simp]: "idCounter (set_table k t st) = idCounter st"
  by (cases k) simp_all

lemma id_of_create:
  "id_of (fst (create k st d)) = ''test-id-'' @ string_of_nat (js_incr (idCounter st))"
  by (simp add: create_def genId_def id_of_def get_prop_def update_conv' Let_def)

lemma idCounter_create: "idCounter (snd (create k st d)) = js_incr (idCounter st)"
  by (simp add: create_def genId_def Let_def)

lemma idCounter_delete: "idCounter (snd (delete k st i)) = idCounter st"
  by (simp add: delete_def)

text \<open>
  The ids a run of creates and deletes hands back are \<open>test-id-N\<close> for consecutive
  \<open>N\<close>, hence pairwise distinct, whatever the callers' data holds and whether or not
  records were deleted in between, as long as the counter stays in the range where
  \<open>++\<close> is exact.
\<close>

lemma run_ids:
  "idCounter st + length ops \<le> 2 ^ 53 \<Longrightarrow>
   \<exists>ns. fst (run ops st) = map (\<lambda>n. ''test-id-'' @ string_of_nat n) ns
      \<and> distinct ns \<and> (\<forall>n \<in> set ns. idCounter st < n)"
proof (induction ops arbitrary: st)
  case Nil
  then show ?case by simp
next
  case (Cons x ops)
  show ?case
  proof (cases x)
    case (Create k d)
    let ?st1 = "snd (create k st d)"
    from Cons.prems have lt: "idCounter st < 2 ^ 53" by simp
    then have c: "idCounter ?st1 = idCounter st + 1"
      by (simp add: idCounter_create js_incr_def)
    with Cons.prems have "idCounter ?st1 + length ops \<le> 2 ^ 53" by simp
    from Cons.IH [OF this] obtain ns
      where ns: "fst (run ops ?st1) = map (\<lambda>n. ''test-id-'' @ string_of_nat n) ns"
        and d: "distinct ns" and g: "\<forall>n \<in> set ns. idCounter ?st1 < n"
      by blast
    have "fst (run (x # ops) st)
            = id_of (fst (create k st d)) # fst (run ops ?st1)"
      by (simp add: Create split_beta Let_def)
    also have "\<dots> = map (\<lambda>n. ''test-id-'' @ string_of_nat n) ((idCounter st + 1) # ns)"
      using lt by (simp add: id_of_create js_incr_def ns)
    finally have "fst (run (x # ops) st)
        = map (\<lambda>n. ''test-id-'' @ string_of_nat n) ((idCounter st + 1) # ns)" .
    moreover have "distinct ((idCounter st + 1) # ns)"
      using d g c by auto
    moreover have "\<forall>n \<in> set ((idCounter st + 1) # ns). idCounter st < n"
      using g c by auto
    ultimately show ?thesis by blast
  next
    case (Delete k i)
    let ?st1 = "snd (delete k st i)"
    from Cons.prems have "idCounter ?st1 + length ops \<le> 2 ^ 53"
      by (simp add: idCounter_delete)
    from Cons.IH [OF this] show ?thesis
      by (simp add: Delete idCounter_delete)
  qed
qed

lemma storage_ids_distinct:
  "idCounter st + length ops \<le> 2 ^ 53 \<Longrightarrow> distinct (fst (run ops st))"
proof -
  assume "idCounter st + length ops \<le> 2 ^ 53"
  from run_ids [OF this] obtain ns
    where ns: "fst (run ops st) = map (\<lambda>n. ''test-id-'' @ string_of_nat n) ns"
      and d: "distinct ns" by blast
  have "inj_on (\<lambda>n. ''test-id-'' @ string_of_nat n) (set ns)"
    by (rule inj_onI) (simp add: string_of_nat_inj)
  with d show ?thesis by (simp add: ns distinct_map)
qed

lemma storage_ids_distinct_example:
  "fst (run [Create Shop [(''name'', JStr ''A''), (''id'', JStr ''dup'')],
             Delete Shop ''test-id-1'',
             Create Shop [(''name'', JStr ''B''), (''id'', JStr ''dup'')]] new_store)
   = [''test-id-1'', ''test-id-2'']"
  by (simp add: create_def delete_def genId_def id_of_def get_prop_def js_incr_def
      new_store_def Let_def string_of_nat.simps digit_def)

section \<open>The HTTP surface\<close>

lemma test_id_2: "string_of_nat (Suc (Suc 0)) = ''2''"
  by (simp add: string_of_nat.simps digit_def)

lemmas app_eval = handle_def route_path_def post_api_shops_def post_api_drivers_def post_api_routes_def
  post_api_targets_def get_api_shops_id_def get_api_routes_def no_route_def reply_def
  error_body_def nullish_def get_prop_def app_genId_def js_incr_def new_store_def
  spread_Cons values_json_def Let_def test_id_1 test_id_2

lemma in_set_update: "(k, v) \<in> set (AList.update k v t)"
  by (induction t) auto

lemma post_api_shops_takes_body_id:
  assumes "\<not> falsy (get_prop b ''name'')" and "\<not> nullish (get_prop b ''latitude'')"
    and "\<not> nullish (get_prop b ''longitude'')"
    and "distinct (keys b)" and "(''id'', v) \<in> set b"
  shows "\<exists>r st'. post_api_shops st b = (reply 201 (JObj r), st') \<and> get_prop r ''id'' = Some v"
proof -
  let ?r = "spread [(''id'', JStr (fst (app_genId st)))] b"
  from assms(4,5) have "get_prop ?r ''id'' = Some v"
    by (rule get_prop_spread_patch)
  moreover from assms(1-3) have "fst (post_api_shops st b) = reply 201 (JObj ?r)"
    by (simp add: post_api_shops_def split_beta Let_def)
  ultimately show ?thesis
    by (metis prod.collapse)
qed

text \<open>
  C1.  The specification asks that the ids create returns be pairwise distinct over the
  life of one store, also when the caller's data carries an \<open>id\<close> field.  The storage
  class does this (\<open>storage_ids_distinct\<close> above).  The create handlers of the test
  application build \<open>{ id, ...req.body }\<close>, the body last: two POSTs of shops whose
  bodies both carry \<open>id: "dup"\<close> are answered 201 with records that both have the id
  \<open>dup\<close>; they are stored under the keys \<open>test-1\<close> and \<open>test-2\<close>, and a GET of
  \<open>/api/shops/dup\<close> finds nothing.
\<close>

theorem post_shops_returns_body_id:
  "handle new_store
     \<lparr>meth = POST, path = [''api'', ''shops''],
      body = [(''name'', JStr ''A''), (''latitude'', JNum 1), (''longitude'', JNum 2),
              (''id'', JStr ''dup'')],
      clock = ''''\<rparr>
   = (reply 201 (JObj [(''id'', JStr ''dup''), (''name'', JStr ''A''), (''latitude'', JNum 1),
                       (''longitude'', JNum 2)]),
      \<lparr>shops = [(''test-1'', [(''id'', JStr ''dup''), (''name'', JStr ''A''),
                               (''latitude'', JNum 1), (''longitude'', JNum 2)])],
       drivers = [], routes = [], targets = [], idCounter = 1\<rparr>)
   \<and> handle
       \<lparr>shops = [(''test-1'', [(''id'', JStr ''dup''), (''name'', JStr ''A''),
                               (''latitude'', JNum 1), (''longitude'', JNum 2)])],
        drivers = [], routes = [], targets = [], idCounter = 1\<rparr>
       \<lparr>meth = POST, path = [''api'', ''shops''],
        body = [(''name'', JStr ''B''), (''latitude'', JNum 3), (''longitude'', JNum 4),
                (''id'', JStr ''dup'')],
        clock = ''''\<rparr>
     = (reply 201 (JObj [(''id'', JStr ''dup''), (''name'', JStr ''B''), (''latitude'', JNum 3),
                         (''longitude'', JNum 4)]),
        \<lparr>shops = [(''test-1'', [(''id'', JStr ''dup''), (''name'', JStr ''A''),
                                 (''latitude'', JNum 1), (''longitude'', JNum 2)]),
                  (''test-2'', [(''id'', JStr ''dup''), (''name'', JStr ''B''),
                                 (''latitude'', JNum 3), (''longitude'', JNum 4)])],
         drivers = [], routes = [], targets = [], idCounter = 2\<rparr>)
   \<and> fst (handle
       \<lparr>shops = [(''test-1'', [(''id'', JStr ''dup''), (''name'', JStr ''A''),
                               (''latitude'', JNum 1), (''longitude'', JNum 2)]),
                 (''test-2'', [(''id'', JStr ''dup''), (''name'', JStr ''B''),
                               (''latitude'', JNum 3), (''longitude'', JNum 4)])],
        drivers = [], routes = [], targets = [], idCounter = 2\<rparr>
       \<lparr>meth = GET, path = [''api'', ''shops'', ''dup''], body = [], clock = ''''\<rparr>)
     = reply 404 (error_body ''Shop not found'')"
  by (simp add: app_eval)

text \<open>
  C6.  The specification asks that validation before create reject a non-number in a
  numeric field and a fraction in an integer field.  The insert schemas do
  (\<open>schema_rejects_non_numeric_latitude\<close> and \<open>schema_rejects_fractional_targetShops\<close>
  below); the create handlers of the test application test the numeric fields with
  \<open>== null\<close> only: a shop whose latitude is the string \<open>not-a-number\<close> and a target whose
  \<open>targetShops\<close> is 10.5 are both created and answered 201.
\<close>

theorem post_accepts_mistyped_numbers:
  "fst (handle new_store
     \<lparr>meth = POST, path = [''api'', ''shops''],
      body = [(''name'', JStr ''Bad Coords''), (''latitude'', JStr ''not-a-number''),
              (''longitude'', JNum 36.86)],
      clock = ''''\<rparr>)
   = reply 201 (JObj [(''id'', JStr ''test-1''), (''name'', JStr ''Bad Coords''),
                      (''latitude'', JStr ''not-a-number''), (''longitude'', JNum 36.86)])
   \<and> fst (handle new_store
     \<lparr>meth = POST, path = [''api'', ''targets''],
      body = [(''driverId'', JStr ''d1''), (''period'', JStr ''weekly''),
              (''targetShops'', JNum 10.5), (''targetDeliveries'', JNum 20),
              (''startDate'', JStr ''2026-02-18''), (''endDate'', JStr ''2026-02-24'')],
      clock = ''''\<rparr>)
   = reply 201 (JObj [(''id'', JStr ''test-1''), (''completedShops'', JNum 0),
                      (''completedDeliveries'', JNum 0), (''driverId'', JStr ''d1''),
                      (''period'', JStr ''weekly''), (''targetShops'', JNum 10.5),
                      (''targetDeliveries'', JNum 20), (''startDate'', JStr ''2026-02-18''),
                      (''endDate'', JStr ''2026-02-24'')])"
  by (simp add: app_eval)

text \<open>
  C8, as the test application has it.  A POST of the route \<open>{name: "R1", date:
  "2026-02-18"}\<close> is answered 201 with the record \<open>{id, status: "planned", shopIds: [],
  name, date}\<close> under a freshly generated id, and the record is stored under that id; a
  following GET of \<open>/api/routes\<close> is answered 200 with the list of stored routes, this
  record among them.  No route is registered for \<open>/api/routes/:id\<close>: a request to
  \<open>/api/routes/j\<close> for a non-empty segment \<open>j\<close>, with or without a trailing slash and
  whatever its method and body, is answered 404 and leaves the store as it is.
\<close>

theorem route_create_then_no_route_by_id:
  "(let i = fst (app_genId st);
        r = [(''id'', JStr i), (''status'', JStr ''planned''), (''shopIds'', JArr []),
             (''name'', JStr ''R1''), (''date'', JStr ''2026-02-18'')];
        st' = (snd (app_genId st))\<lparr>routes := AList.update i r (routes st)\<rparr>
    in handle st \<lparr>meth = POST, path = [''api'', ''routes''],
                    body = [(''name'', JStr ''R1''), (''date'', JStr ''2026-02-18'')],
                    clock = t\<rparr>
         = (reply 201 (JObj r), st')
       \<and> handle st' \<lparr>meth = GET, path = [''api'', ''routes''], body = b, clock = t'\<rparr>
         = (reply 200 (JArr (map (\<lambda>(i, r). JObj r) (routes st'))), st')
       \<and> (i, r) \<in> set (routes st')
       \<and> (j \<noteq> [] \<longrightarrow>
            handle st' \<lparr>meth = m, path = [''api'', ''routes'', j], body = b, clock = t'\<rparr>
              = (\<lparr>status = 404, json = None\<rparr>, st')
            \<and> handle st' \<lparr>meth = m, path = [''api'', ''routes'', j, []], body = b,
                           clock = t'\<rparr>
              = (\<lparr>status = 404, json = None\<rparr>, st')))"
  by (simp add: Let_def handle_def route_path_def post_api_routes_def get_api_routes_def
      no_route_def values_json_def get_prop_def app_genId_def spread_Cons in_set_update)

theorem route_create_then_no_route_by_id_witness:
  "handle new_store \<lparr>meth = POST, path = [''api'', ''routes''],
                      body = [(''name'', JStr ''R1''), (''date'', JStr ''2026-02-18'')],
                      clock = ''''\<rparr>
     = (reply 201 (JObj [(''id'', JStr ''test-1''), (''status'', JStr ''planned''),
                         (''shopIds'', JArr []), (''name'', JStr ''R1''),
                         (''date'', JStr ''2026-02-18'')]),
        \<lparr>shops = [], drivers = [],
         routes = [(''test-1'', [(''id'', JStr ''test-1''), (''status'', JStr ''planned''),
                                 (''shopIds'', JArr []), (''name'', JStr ''R1''),
                                 (''date'', JStr ''2026-02-18'')])],
         targets = [], idCounter = 1\<rparr>)
   \<and> ''test-1'' \<noteq> []
   \<and> handle
       \<lparr>shops = [], drivers = [],
        routes = [(''test-1'', [(''id'', JStr ''test-1''), (''status'', JStr ''planned''),
                                (''shopIds'', JArr []), (''name'', JStr ''R1''),
                                (''date'', JStr ''2026-02-18'')])],
        targets = [], idCounter = 1\<rparr>
       \<lparr>meth = PATCH, path = [''api'', ''routes'', ''test-1''],
        body = [(''status'', JStr ''in_progress'')], clock = ''''\<rparr>
     = (\<lparr>status = 404, json = None\<rparr>,
        \<lparr>shops = [], drivers = [],
         routes = [(''test-1'', [(''id'', JStr ''test-1''), (''status'', JStr ''planned''),
                                 (''shopIds'', JArr []), (''name'', JStr ''R1''),
                                 (''date'', JStr ''2026-02-18'')])],
         targets = [], idCounter = 1\<rparr>)"
proof -
  have g: "app_genId \<lparr>shops = [], drivers = [], routes = [], targets = [], idCounter = 0\<rparr>
             = (''test-1'',
                \<lparr>shops = [], drivers = [], routes = [], targets = [], idCounter = 1\<rparr>)"
    by (simp add: app_genId_def js_incr_def string_of_nat.simps digit_def)
  from route_create_then_no_route_by_id [of new_store "''''" "[(''status'', JStr ''in_progress'')]"
      "''''" "''test-1''" PATCH]
  show ?thesis by (simp add: g Let_def new_store_def)
qed

lemma trailing_slash_is_served:
  "handle st \<lparr>meth = GET, path = [''api'', ''routes'', []], body = b, clock = t\<rparr>
     = get_api_routes st
   \<and> (i \<noteq> [] \<longrightarrow>
        handle st \<lparr>meth = GET, path = [''api'', ''shops'', i, []], body = b, clock = t\<rparr>
          = get_api_shops_id st i)"
  by (simp add: handle_def route_path_def)

text \<open>
  The lifecycle of C8 as the specification words it breaks at its second step: after the
  POST on a fresh application, the GET of \<open>/api/routes/test-1\<close> is answered 404, not 200
  with the record.
\<close>

theorem route_get_by_id_is_404:
  "handle new_store
     \<lparr>meth = POST, path = [''api'', ''routes''],
      body = [(''name'', JStr ''R1''), (''date'', JStr ''2026-02-18'')], clock = ''''\<rparr>
   = (reply 201 (JObj [(''id'', JStr ''test-1''), (''status'', JStr ''planned''),
                       (''shopIds'', JArr []), (''name'', JStr ''R1''),
                       (''date'', JStr ''2026-02-18'')]),
      \<lparr>shops = [], drivers = [],
       routes = [(''test-1'', [(''id'', JStr ''test-1''), (''status'', JStr ''planned''),
                               (''shopIds'', JArr []), (''name'', JStr ''R1''),
                               (''date'', JStr ''2026-02-18'')])],
       targets = [], idCounter = 1\<rparr>)
   \<and> status (fst (handle
       \<lparr>shops = [], drivers = [],
        routes = [(''test-1'', [(''id'', JStr ''test-1''), (''status'', JStr ''planned''),
                                (''shopIds'', JArr []), (''name'', JStr ''R1''),
                                (''date'', JStr ''2026-02-18'')])],
        targets = [], idCounter = 1\<rparr>
       \<lparr>meth = GET, path = [''api'', ''routes'', ''test-1''], body = [], clock = ''''\<rparr>))
     = 404"
  by (simp add: app_eval)

section \<open>The validation layer\<close>

lemma zparse_issues_nonempty: "zparse s v = Inl e \<Longrightarrow> e \<noteq> []"
  by (induction s v arbitrary: e rule: zparse.induct)
     (auto simp: Let_def split: option.splits jval.splits if_splits)

lemma parse_field_Inl:
  "parse_field input f = Inl e \<longleftrightarrow>
   (\<exists>e'. zparse (snd f) (get_prop input (fst f)) = Inl e' \<and> e = under (Key (fst f)) e')"
  by (auto simp: parse_field_def split: sum.splits option.splits)

lemma parse_field_Inr_keys:
  "parse_field input f = Inr kv \<Longrightarrow> set (keys kv) \<subseteq> {fst f}"
  by (auto simp: parse_field_def keys_def split: sum.splits option.splits)

lemma set_issues_of:
  "set (issues_of (map g xs)) = {x. \<exists>y \<in> set xs. \<exists>e. g y = Inl e \<and> x \<in> set e}"
  by (induction xs) (auto simp: issues_of_def split: sum.splits)

lemma keys_of_parsed:
  "k \<in> set (keys (concat (map (\<lambda>r. case r of Inr kv \<Rightarrow> kv | Inl e \<Rightarrow> []) (map g xs))))
   \<Longrightarrow> \<exists>y \<in> set xs. \<exists>kv. g y = Inr kv \<and> k \<in> set (keys kv)"
proof (induction xs)
  case Nil
  then show ?case by (simp add: keys_def)
next
  case (Cons a xs)
  then show ?case by (cases "g a") (auto simp: keys_def)
qed

lemma named_fields_issues:
  "named_fields (issues_of (map (parse_field input) shape))
     = {k. \<exists>f \<in> set shape. fst f = k \<and> violated input f}"
proof -
  have "k \<in> named_fields (issues_of (map (parse_field input) shape))
        \<longleftrightarrow> (\<exists>f \<in> set shape. fst f = k \<and> violated input f)" for k
  proof
    assume "k \<in> named_fields (issues_of (map (parse_field input) shape))"
    then obtain p c e f where f: "f \<in> set shape" and e: "parse_field input f = Inl e"
      and x: "(Key k # p, c) \<in> set e"
      by (auto simp: named_fields_def set_issues_of)
    from e obtain e' where z: "zparse (snd f) (get_prop input (fst f)) = Inl e'"
      and "e = under (Key (fst f)) e'"
      by (auto simp: parse_field_Inl)
    with x have "fst f = k" by (auto simp: under_def)
    with f z show "\<exists>f \<in> set shape. fst f = k \<and> violated input f"
      by (auto simp: violated_def)
  next
    assume "\<exists>f \<in> set shape. fst f = k \<and> violated input f"
    then obtain f e' where f: "f \<in> set shape" and k: "fst f = k"
      and z: "zparse (snd f) (get_prop input (fst f)) = Inl e'"
      by (auto simp: violated_def isl_def)
    from z have "e' \<noteq> []" by (rule zparse_issues_nonempty)
    then obtain p c where pc: "(p, c) \<in> set e'" by (cases e') auto
    from z have "parse_field input f = Inl (under (Key (fst f)) e')"
      by (simp add: parse_field_Inl)
    moreover from pc have "(Key k # p, c) \<in> set (under (Key (fst f)) e')"
      by (force simp: under_def k)
    ultimately show "k \<in> named_fields (issues_of (map (parse_field input) shape))"
      using f by (auto simp: named_fields_def set_issues_of intro!: exI [of _ p] exI [of _ c])
  qed
  then show ?thesis by blast
qed

lemma safeParse_failure:
  assumes "safeParse shape (JObj input) = Inl e"
  shows "e \<noteq> []" and "named_fields e = {k. \<exists>f \<in> set shape. fst f = k \<and> violated input f}"
proof -
  from assms have e: "e = issues_of (map (parse_field input) shape)" and ne: "e \<noteq> []"
    by (auto simp: safeParse_def Let_def split: if_splits)
  show "e \<noteq> []" by (rule ne)
  show "named_fields e = {k. \<exists>f \<in> set shape. fst f = k \<and> violated input f}"
    unfolding e by (rule named_fields_issues)
qed

lemma safeParse_success:
  assumes "safeParse shape (JObj input) = Inr r"
  shows "\<forall>f \<in> set shape. \<not> violated input f" and "set (keys r) \<subseteq> fst ` set shape"
proof -
  from assms have nil: "issues_of (map (parse_field input) shape) = []"
    and r: "r = concat (map (\<lambda>r. case r of Inr kv \<Rightarrow> kv | Inl e \<Rightarrow> [])
                        (map (parse_field input) shape))"
    by (auto simp: safeParse_def Let_def split: if_splits)
  from nil have "named_fields (issues_of (map (parse_field input) shape)) = {}"
    by (simp add: named_fields_def)
  then show "\<forall>f \<in> set shape. \<not> violated input f"
    unfolding named_fields_issues by blast
  show "set (keys r) \<subseteq> fst ` set shape"
  proof
    fix k assume "k \<in> set (keys r)"
    then obtain f kv where f: "f \<in> set shape" and kv: "parse_field input f = Inr kv"
      and k: "k \<in> set (keys kv)"
      unfolding r by (blast dest: keys_of_parsed)
    from parse_field_Inr_keys [OF kv] k have "k = fst f" by auto
    with f show "k \<in> fst ` set shape" by simp
  qed
qed

lemma field_lookup:
  assumes "distinct (map fst shape)" and "f \<in> set shape"
  shows "get_prop (concat (map (\<lambda>r. case r of Inr kv \<Rightarrow> kv | Inl e \<Rightarrow> [])
                               (map (parse_field input) shape))) (fst f)
         = (case zparse (snd f) (get_prop input (fst f)) of Inr v \<Rightarrow> v | Inl e \<Rightarrow> None)"
  using assms
proof (induction shape)
  case Nil
  then show ?case by simp
next
  case (Cons g shape)
  define rest where "rest = concat (map (\<lambda>r. case r of Inr kv \<Rightarrow> kv | Inl e \<Rightarrow> [])
                                        (map (parse_field input) shape))"
  define hd_kv where "hd_kv = (case parse_field input g of Inr kv \<Rightarrow> kv | Inl e \<Rightarrow> [])"
  have split: "concat (map (\<lambda>r. case r of Inr kv \<Rightarrow> kv | Inl e \<Rightarrow> [])
                           (map (parse_field input) (g # shape))) = hd_kv @ rest"
    by (simp add: rest_def hd_kv_def)
  have absent: "map_of rest (fst g) = None"
  proof (rule ccontr)
    assume "map_of rest (fst g) \<noteq> None"
    then have "fst g \<in> set (keys rest)"
      by (auto simp: keys_def map_of_eq_None_iff)
    from keys_of_parsed [OF this [unfolded rest_def]] obtain y kv where "y \<in> set shape"
      and "parse_field input y = Inr kv" and "fst g \<in> set (keys kv)" by blast
    with parse_field_Inr_keys [of input y kv] have "fst g \<in> fst ` set shape" by auto
    with Cons.prems(1) show False by simp
  qed
  have hd: "map_of hd_kv k
      = (if k = fst g
         then (case zparse (snd g) (get_prop input (fst g)) of Inr v \<Rightarrow> v | Inl e \<Rightarrow> None)
         else None)" for k
    by (simp add: hd_kv_def parse_field_def split: sum.splits option.splits)
  show ?case
  proof (cases "f = g")
    case True
    then show ?thesis
      unfolding split get_prop_def [of "hd_kv @ rest"]
      by (simp add: map_of_append map_add_def absent hd split: sum.splits option.splits)
  next
    case False
    with Cons.prems have f: "f \<in> set shape" and d: "distinct (map fst shape)"
      and ne: "fst f \<noteq> fst g" by (auto simp: image_iff)
    from Cons.IH [OF d f] have "map_of rest (fst f)
      = (case zparse (snd f) (get_prop input (fst f)) of Inr v \<Rightarrow> v | Inl e \<Rightarrow> None)"
      by (simp add: rest_def get_prop_def)
    with ne show ?thesis
      unfolding split get_prop_def [of "hd_kv @ rest"]
      by (simp add: map_of_append map_add_def hd split: option.splits)
  qed
qed

lemma schema_rejects_non_numeric_latitude:
  assumes "get_prop input ''latitude'' = Some v" and "\<forall>x. v \<noteq> JNum x"
  shows "isl (safeParse insertShopSchema (JObj input))"
proof (cases "safeParse insertShopSchema (JObj input)")
  case (Inl e)
  then show ?thesis by simp
next
  case (Inr r)
  from safeParse_success(1) [OF Inr]
  have "\<not> violated input (''latitude'', ZNumber False)"
    by (simp add: insertShopSchema_def)
  with assms show ?thesis
    by (cases v) (simp_all add: violated_def)
qed

lemma schema_rejects_fractional_targetShops:
  assumes "get_prop input ''targetShops'' = Some (JNum x)" and "x \<notin> \<int>"
  shows "isl (safeParse insertTargetSchema (JObj input))"
proof (cases "safeParse insertTargetSchema (JObj input)")
  case (Inl e)
  then show ?thesis by simp
next
  case (Inr r)
  from safeParse_success(1) [OF Inr]
  have "\<not> violated input (''targetShops'', ZNumber True)"
    by (simp add: insertTargetSchema_def)
  with assms show ?thesis
    by (simp add: violated_def is_integer_Ints)
qed

lemmas zod_eval = safeParse_def parse_field_def get_prop_def issues_of_def under_def
  is_integer_Ints insertShopSchema_def insertDriverSchema_def insertRouteSchema_def
  insertTargetSchema_def

text \<open>
  C5.  The shop \<open>{name: "X", latitude: -1.26, longitude: 36.86}\<close> passes the shop schema
  and comes back with \<open>category: "retail"\<close> and \<open>status: "active"\<close> filled in; the same
  input without \<open>name\<close> fails, on \<open>name\<close>; the driver \<open>{name: "D", phone:
  "+254700000000"}\<close> fails the driver schema, on \<open>vehicleType\<close>.
\<close>

theorem insert_schema_examples:
  "safeParse insertShopSchema
     (JObj [(''name'', JStr ''X''), (''latitude'', JNum (-1.26)), (''longitude'', JNum 36.86)])
   = Inr [(''name'', JStr ''X''), (''latitude'', JNum (-1.26)), (''longitude'', JNum 36.86),
          (''category'', JStr ''retail''), (''status'', JStr ''active'')]
   \<and> safeParse insertShopSchema
       (JObj [(''latitude'', JNum (-1.26)), (''longitude'', JNum 36.86)])
     = Inl [([Key ''name''], InvalidType)]
   \<and> safeParse insertDriverSchema
       (JObj [(''name'', JStr ''D''), (''phone'', JStr ''+254700000000'')])
     = Inl [([Key ''vehicleType''], InvalidType)]"
  by (simp add: zod_eval)

text \<open>
  What the schema layer does on every shape and input object: it returns a record
  exactly when no field of the shape violates its rule; the record then has no field
  outside the shape and holds for each field of the shape what the field's rule yields
  (nothing for an optional field that is not given, the default for a defaulted one);
  a failure is a non-empty list of issues, and the fields the issues name are exactly
  the fields that violate their rule: all of them, not the first only.  An input that
  is not an object fails with one issue.
\<close>

lemma safeParse_accepts:
  assumes "\<forall>f \<in> set shape. \<not> violated input f"
  shows "\<exists>r. safeParse shape (JObj input) = Inr r"
proof -
  have "set (issues_of (map (parse_field input) shape)) = {}"
    using assms by (auto simp: set_issues_of parse_field_Inl violated_def)
  then have "issues_of (map (parse_field input) shape) = []" by simp
  then show ?thesis by (simp add: safeParse_def Let_def)
qed

lemma schema_validation_reports:
  "((\<exists>r. safeParse shape (JObj input) = Inr r) \<longleftrightarrow> (\<forall>f \<in> set shape. \<not> violated input f))
   \<and> (case safeParse shape (JObj input) of
        Inr r \<Rightarrow>
          set (keys r) \<subseteq> fst ` set shape
          \<and> (distinct (map fst shape) \<longrightarrow>
               (\<forall>f \<in> set shape.
                  zparse (snd f) (get_prop input (fst f)) = Inr (get_prop r (fst f))))
      | Inl e \<Rightarrow>
          e \<noteq> [] \<and> named_fields e = {k. \<exists>f \<in> set shape. fst f = k \<and> violated input f})
   \<and> ((\<forall>kvs. raw \<noteq> JObj kvs) \<longrightarrow> safeParse shape raw = Inl [([], InvalidType)])"
proof -
  have iff: "(\<exists>r. safeParse shape (JObj input) = Inr r)
      \<longleftrightarrow> (\<forall>f \<in> set shape. \<not> violated input f)"
    using safeParse_accepts [of shape input] safeParse_success(1) [of shape input] by blast
  have other: "(\<forall>kvs. raw \<noteq> JObj kvs) \<longrightarrow> safeParse shape raw = Inl [([], InvalidType)]"
    by (cases raw) (simp_all add: safeParse_def)
  show ?thesis
  proof (cases "safeParse shape (JObj input)")
    case (Inl e)
    with safeParse_failure [OF Inl] iff other show ?thesis by simp
  next
    case (Inr r)
    have "zparse (snd f) (get_prop input (fst f)) = Inr (get_prop r (fst f))"
      if d: "distinct (map fst shape)" and f: "f \<in> set shape" for f
    proof -
      from Inr have r: "r = concat (map (\<lambda>r. case r of Inr kv \<Rightarrow> kv | Inl e \<Rightarrow> [])
                                      (map (parse_field input) shape))"
        by (auto simp: safeParse_def Let_def split: if_splits)
      from safeParse_success(1) [OF Inr] f have "\<not> violated input f" by blast
      then obtain v where v: "zparse (snd f) (get_prop input (fst f)) = Inr v"
        by (cases "zparse (snd f) (get_prop input (fst f))") (simp_all add: violated_def)
      with field_lookup [OF d f, of input] show ?thesis by (simp add: r)
    qed
    with Inr safeParse_success(2) [OF Inr] iff other show ?thesis by simp
  qed
qed

lemma schema_reports_all_missing_fields:
  "safeParse insertShopSchema (JObj [(''category'', JStr ''retail'')])
     = Inl [([Key ''name''], InvalidType), ([Key ''latitude''], InvalidType),
            ([Key ''longitude''], InvalidType)]
   \<and> safeParse insertShopSchema (JObj [(''name'', JStr ''X''), (''category'', JStr ''retail'')])
     = Inl [([Key ''latitude''], InvalidType), ([Key ''longitude''], InvalidType)]"
  by (simp add: zod_eval)


end
